theory Spec2Isabelle
  imports
    Complex_Main
    "HOL-Library.Char_ord"
    "HOL-Library.List_Lexorder"
    "HOL-Library.Product_Lexorder"
begin

section \<open>Data frames\<close>

text \<open>
  The dashboard (\<^verbatim>\<open>app.py\<close>) keeps two data frames, \<^verbatim>\<open>df_news\<close> and \<^verbatim>\<open>df_stocks\<close>, and
  derives filtered frames and pivot tables from them. A cell is a number, a string, a
  timestamp or the missing value (NaN, NaT, None). Numbers are exact rationals here: the
  rounding of float64 and the range of int64 are outside the model. A timestamp is an
  integer count of time units since the epoch.
\<close>

datatype scalar = Num rat | Str string | Date int | Null

datatype dtype = Numeric | Object | Datetime

type_synonym row = "(string \<times> scalar) list"

record table =
  columns :: "(string \<times> dtype) list"
  rows :: "row list"

datatype error = KeyError string | TypeError | ValueError

text \<open>\<^verbatim>\<open>c in df.columns\<close>\<close>

definition has_col :: "table \<Rightarrow> string \<Rightarrow> bool" where
  "has_col df c = (c \<in> set (map fst (columns df)))"

definition dtype_of :: "table \<Rightarrow> string \<Rightarrow> dtype option" where
  "dtype_of df c = map_of (columns df) c"

text \<open>The cell of a row under a column label; a label the row lacks reads as missing.\<close>

definition cell :: "row \<Rightarrow> string \<Rightarrow> scalar" where
  "cell r c = (case map_of r c of Some v \<Rightarrow> v | None \<Rightarrow> Null)"

text \<open>\<^verbatim>\<open>df[mask]\<close>, the mask computed row by row: the rows where it holds, columns kept.\<close>

definition select_rows :: "(row \<Rightarrow> bool) \<Rightarrow> table \<Rightarrow> table" where
  "select_rows p df = df\<lparr>rows := filter p (rows df)\<rparr>"

text \<open>\<^verbatim>\<open>series.isin(values)\<close> at one cell.\<close>

definition isin :: "scalar \<Rightarrow> scalar list \<Rightarrow> bool" where
  "isin v vs = (v \<in> set vs)"

text \<open>\<^verbatim>\<open>df.empty\<close>: some axis has length 0.\<close>

definition empty_df :: "table \<Rightarrow> bool" where
  "empty_df df = (columns df = [] \<or> rows df = [])"

section \<open>Tab 1: the news filters\<close>

text \<open>
  Lines 35 to 39. \<^verbatim>\<open>categories\<close> and \<^verbatim>\<open>sectors\<close> are what the two multiselect widgets
  returned. \<^verbatim>\<open>df_news.copy()\<close> is a value of its own, so the function neither reads nor
  writes anything but its arguments.
\<close>

definition news_filters :: "table \<Rightarrow> scalar list \<Rightarrow> scalar list \<Rightarrow> table" where
  "news_filters df_news categories sectors =
     (let filtered_news = df_news;
          filtered_news =
            (if categories \<noteq> [] \<and> has_col filtered_news ''category''
             then select_rows (\<lambda>r. isin (cell r ''category'') categories) filtered_news
             else filtered_news);
          filtered_news =
            (if sectors \<noteq> [] \<and> has_col filtered_news ''sector''
             then select_rows (\<lambda>r. isin (cell r ''sector'') sectors) filtered_news
             else filtered_news)
      in filtered_news)"

section \<open>Tab 2: the stock filters\<close>

text \<open>
  \<^verbatim>\<open>pd.to_datetime(series, errors='coerce')\<close> at one cell. A timestamp stays, a missing
  value stays missing, and what the library makes of a string or a number is the
  parameter \<open>parse\<close> (\<open>None\<close> when it cannot convert the cell, which gives NaT).
\<close>

definition to_datetime :: "(scalar \<Rightarrow> int option) \<Rightarrow> scalar \<Rightarrow> scalar" where
  "to_datetime parse v =
     (case v of
        Date d \<Rightarrow> Date d
      | Null \<Rightarrow> Null
      | _ \<Rightarrow> (case parse v of Some d \<Rightarrow> Date d | None \<Rightarrow> Null))"

text \<open>\<^verbatim>\<open>df[c] = series\<close>: the column is replaced in place, with the dtype of the series.\<close>

definition set_column :: "string \<Rightarrow> dtype \<Rightarrow> (scalar \<Rightarrow> scalar) \<Rightarrow> table \<Rightarrow> table" where
  "set_column c dt f df =
     \<lparr>columns = map (\<lambda>(k, d). if k = c then (k, dt) else (k, d)) (columns df),
      rows = map (map (\<lambda>(k, v). if k = c then (k, f v) else (k, v))) (rows df)\<rparr>"

text \<open>
  \<^verbatim>\<open>(s >= start) & (s <= end)\<close> against two timestamps. On a numeric column the library
  raises TypeError for the column as a whole. Otherwise the cells are compared one by
  one: a timestamp compares, a missing value gives False, a string or a number raises
  TypeError.
\<close>

fun orderable :: "scalar \<Rightarrow> bool" where
  "orderable (Date d) = True"
| "orderable Null = True"
| "orderable (Num n) = False"
| "orderable (Str s) = False"

fun in_range :: "int \<Rightarrow> int \<Rightarrow> scalar \<Rightarrow> bool" where
  "in_range start end (Date d) = (start \<le> d \<and> d \<le> end)"
| "in_range start end v = False"

definition date_between :: "table \<Rightarrow> int \<Rightarrow> int \<Rightarrow> error + table" where
  "date_between df start end =
     (if dtype_of df ''date'' = Some Numeric then Inl TypeError
      else if list_ex (\<lambda>r. \<not> orderable (cell r ''date'')) (rows df) then Inl TypeError
      else Inr (select_rows (\<lambda>r. in_range start end (cell r ''date'')) df))"

text \<open>What \<^verbatim>\<open>st.date_input\<close> returned: a pair of dates, or anything else.\<close>

datatype date_input = DateRange int int | NoRange

text \<open>
  Lines 64 to 92. The state is the global \<^verbatim>\<open>df_stocks\<close>: the function returns its new
  value and the filtered frame, or the exception that ends the script run. The two
  multiselect widgets are only drawn when their column exists. The copy is taken before
  \<^verbatim>\<open>df_stocks['date']\<close> is assigned, so \<^verbatim>\<open>filtered_stocks\<close> holds the date cells as loaded.
\<close>

definition stock_filters ::
  "(scalar \<Rightarrow> int option) \<Rightarrow> table \<Rightarrow> scalar list \<Rightarrow> scalar list \<Rightarrow> date_input
     \<Rightarrow> table \<times> (error + table)" where
  "stock_filters parse df_stocks picked_sectors picked_names date_range =
     (let stock_sectors = (if has_col df_stocks ''sector'' then picked_sectors else []);
          stock_names = (if has_col df_stocks ''stock_name'' then picked_names else []);
          filtered_stocks = df_stocks;
          filtered_stocks =
            (if stock_sectors \<noteq> []
             then select_rows (\<lambda>r. isin (cell r ''sector'') stock_sectors) filtered_stocks
             else filtered_stocks);
          filtered_stocks =
            (if stock_names \<noteq> []
             then select_rows (\<lambda>r. isin (cell r ''stock_name'') stock_names) filtered_stocks
             else filtered_stocks)
      in if has_col df_stocks ''date''
         then
           (let df_stocks' = set_column ''date'' Datetime (to_datetime parse) df_stocks
            in case date_range of
                 DateRange start end \<Rightarrow> (df_stocks', date_between filtered_stocks start end)
               | NoRange \<Rightarrow> (df_stocks', Inr filtered_stocks))
         else (df_stocks, Inr filtered_stocks))"

text \<open>Applying a fallible step to the result of another: an exception goes through.\<close>

definition and_then :: "error + 'a \<Rightarrow> ('a \<Rightarrow> error + 'b) \<Rightarrow> error + 'b" where
  "and_then x f = (case x of Inl e \<Rightarrow> Inl e | Inr a \<Rightarrow> f a)"

text \<open>The stock table of the scenario, its dates as text cells.\<close>

definition stocks_example :: table where
  "stocks_example =
     \<lparr>columns = [(''sector'', Object), (''stock_name'', Object), (''date'', Object),
                 (''price'', Numeric)],
      rows = [[(''sector'', Str ''Tech''), (''stock_name'', Str ''A''),
               (''date'', Str ''2024-01-01''), (''price'', Num 10)],
              [(''sector'', Str ''Tech''), (''stock_name'', Str ''B''),
               (''date'', Str ''2024-01-02''), (''price'', Num 20)]]\<rparr>"

text \<open>The conjunction of the two membership filters of tab 2, as one row predicate.\<close>

definition stock_pred :: "table \<Rightarrow> scalar list \<Rightarrow> scalar list \<Rightarrow> row \<Rightarrow> bool" where
  "stock_pred df picked_sectors picked_names = (\<lambda>r.
     (has_col df ''sector'' \<and> picked_sectors \<noteq> [] \<longrightarrow> isin (cell r ''sector'') picked_sectors) \<and>
     (has_col df ''stock_name'' \<and> picked_names \<noteq> []
        \<longrightarrow> isin (cell r ''stock_name'') picked_names))"

section \<open>Tab 3: the pivot table\<close>

text \<open>
  The script calls the library routine \<^verbatim>\<open>pd.pivot_table(df_source, index=..., columns=...,
  values=..., aggfunc=..., fill_value=0)\<close> with the other arguments at their defaults
  (\<^verbatim>\<open>dropna=True\<close>, \<^verbatim>\<open>sort=True\<close>, no margins). The routine is modelled for one index
  label, at most one column label and at most one value label, all different: it checks
  the labels, groups the rows by the keys (rows with a missing key belong to no group),
  aggregates the value cells of each group, drops the groups whose aggregate is missing,
  and lays the rest out with the sorted index values as rows and the sorted column values
  as columns, absent combinations filled with \<^verbatim>\<open>fill_value\<close>.
\<close>

datatype aggfunc = AggSum | AggMean | AggCount | AggMax | AggMin

record pivot_df =
  index_name :: string
  index_values :: "scalar list"
  column_labels :: "scalar list"
  cells :: "scalar list list"

text \<open>
  Grouping one key column (\<^verbatim>\<open>factorize\<close> with \<^verbatim>\<open>sort=True\<close>) gives the distinct values of the
  column that are not missing, in order: the values that are not strings in their own
  order, then the strings. Numbers and timestamps do not compare with each other, so a
  column that holds both raises TypeError.
\<close>

fun is_number :: "scalar \<Rightarrow> bool" where
  "is_number (Num n) = True"
| "is_number v = False"

fun is_timestamp :: "scalar \<Rightarrow> bool" where
  "is_timestamp (Date d) = True"
| "is_timestamp v = False"

fun sort_key_of :: "scalar \<Rightarrow> nat \<times> rat \<times> string" where
  "sort_key_of (Num n) = (0, n, [])"
| "sort_key_of (Date d) = (0, of_int d, [])"
| "sort_key_of (Str s) = (1, 0, s)"
| "sort_key_of Null = (2, 0, [])"

definition mixes_kinds :: "scalar list \<Rightarrow> bool" where
  "mixes_kinds vs = (list_ex is_number vs \<and> list_ex is_timestamp vs)"

definition sorted_unique :: "scalar list \<Rightarrow> error + scalar list" where
  "sorted_unique vs =
     (if mixes_kinds vs then Inl TypeError
      else Inr (sort_key sort_key_of (remdups (filter (\<lambda>v. v \<noteq> Null) vs))))"

fun nums :: "scalar list \<Rightarrow> rat list" where
  "nums [] = []"
| "nums (Num n # vs) = n # nums vs"
| "nums (v # vs) = nums vs"

text \<open>
  The aggregate of the value cells of one group. \<^verbatim>\<open>count\<close> is the number of cells that
  are not missing, whatever the column holds. On a numeric column \<^verbatim>\<open>sum\<close> skips the missing
  cells (and is 0 when there is none left), and \<^verbatim>\<open>mean\<close>, \<^verbatim>\<open>max\<close> and \<^verbatim>\<open>min\<close> are missing
  when every cell is. What \<^verbatim>\<open>sum\<close>, \<^verbatim>\<open>mean\<close>, \<^verbatim>\<open>max\<close> and \<^verbatim>\<open>min\<close> do on a column that is
  not numeric depends on the library version and is the parameter \<open>agg_object\<close>.
\<close>

definition aggregate ::
  "(aggfunc \<Rightarrow> scalar list \<Rightarrow> error + scalar) \<Rightarrow> dtype option \<Rightarrow> aggfunc \<Rightarrow> scalar list
     \<Rightarrow> error + scalar" where
  "aggregate agg_object dt f vs =
     (if f = AggCount then Inr (Num (of_nat (length (filter (\<lambda>v. v \<noteq> Null) vs))))
      else if dt = Some Numeric then
        (case f of
           AggSum \<Rightarrow> Inr (Num (sum_list (nums vs)))
         | AggMean \<Rightarrow>
             Inr (if nums vs = [] then Null
                  else Num (sum_list (nums vs) / of_nat (length (nums vs))))
         | AggMax \<Rightarrow>
             Inr (case nums vs of [] \<Rightarrow> Null | n # ns \<Rightarrow> Num (fold max ns n))
         | AggMin \<Rightarrow>
             Inr (case nums vs of [] \<Rightarrow> Null | n # ns \<Rightarrow> Num (fold min ns n))
         | AggCount \<Rightarrow> Inr (Num (of_nat (length (filter (\<lambda>v. v \<noteq> Null) vs)))))
      else agg_object f vs)"

text \<open>The aggregates of all groups, or the first exception.\<close>

fun agg_all :: "('k \<times> (error + scalar)) list \<Rightarrow> error + ('k \<times> scalar) list" where
  "agg_all [] = Inr []"
| "agg_all ((k, Inl e) # xs) = Inl e"
| "agg_all ((k, Inr a) # xs) =
     (case agg_all xs of Inl e \<Rightarrow> Inl e | Inr ys \<Rightarrow> Inr ((k, a) # ys))"

text \<open>
  Grouping and layout. \<open>i\<close> is the index label, \<open>gv\<close> reads the column key of a row and
  \<open>v\<close> is the value label.
\<close>

definition live_rows :: "string \<Rightarrow> (row \<Rightarrow> scalar) \<Rightarrow> row list \<Rightarrow> row list" where
  "live_rows i gv rs = filter (\<lambda>r. cell r i \<noteq> Null \<and> gv r \<noteq> Null) rs"

definition partition_of ::
  "string \<Rightarrow> (row \<Rightarrow> scalar) \<Rightarrow> row list \<Rightarrow> scalar \<Rightarrow> scalar \<Rightarrow> row list" where
  "partition_of i gv rs a b = filter (\<lambda>r. cell r i = a \<and> gv r = b) (live_rows i gv rs)"

definition group_keys :: "string \<Rightarrow> (row \<Rightarrow> scalar) \<Rightarrow> row list \<Rightarrow> (scalar \<times> scalar) list" where
  "group_keys i gv rs = remdups (map (\<lambda>r. (cell r i, gv r)) (live_rows i gv rs))"

definition lay_out ::
  "string \<Rightarrow> scalar \<Rightarrow> scalar list \<Rightarrow> scalar list \<Rightarrow> ((scalar \<times> scalar) \<times> scalar) list
     \<Rightarrow> pivot_df" where
  "lay_out i fill_value iu gu agged =
     (let kept = filter (\<lambda>(k, x). x \<noteq> Null) agged;
          ivals = filter (\<lambda>a. a \<in> set (map (\<lambda>(k, x). fst k) kept)) iu;
          gvals = filter (\<lambda>b. b \<in> set (map (\<lambda>(k, x). snd k) kept)) gu
      in \<lparr>index_name = i, index_values = ivals, column_labels = gvals,
          cells = map (\<lambda>a. map (\<lambda>b. case map_of kept (a, b) of
                                       Some x \<Rightarrow> x | None \<Rightarrow> fill_value) gvals) ivals\<rparr>)"

text \<open>
  The two key columns are grouped first, which is where keys that do not compare raise;
  then the groups are aggregated; then the groups that are left are laid out, in the
  order of their keys.
\<close>

definition pivot_groups ::
  "(aggfunc \<Rightarrow> scalar list \<Rightarrow> error + scalar) \<Rightarrow> table \<Rightarrow> string \<Rightarrow> (row \<Rightarrow> scalar) \<Rightarrow> string
     \<Rightarrow> aggfunc \<Rightarrow> scalar \<Rightarrow> error + pivot_df" where
  "pivot_groups agg_object data i gv v f fill_value =
     (case sorted_unique (map (\<lambda>r. cell r i) (rows data)) of
        Inl e \<Rightarrow> Inl e
      | Inr iu \<Rightarrow>
          (case sorted_unique (map gv (rows data)) of
             Inl e \<Rightarrow> Inl e
           | Inr gu \<Rightarrow>
               (case agg_all (map (\<lambda>(a, b). ((a, b),
                         aggregate agg_object (dtype_of data v) f
                           (map (\<lambda>r. cell r v) (partition_of i gv (rows data) a b))))
                       (group_keys i gv (rows data))) of
                  Inl e \<Rightarrow> Inl e
                | Inr agged \<Rightarrow> Inr (lay_out i fill_value iu gu agged))))"

text \<open>
  The column key of a row: its cell under the column label, or, with no column label, the
  value label itself (the result then has that one column).
\<close>

definition column_key :: "string option \<Rightarrow> string \<Rightarrow> row \<Rightarrow> scalar" where
  "column_key cols v = (\<lambda>r. case cols of None \<Rightarrow> Str v | Some g \<Rightarrow> cell r g)"

text \<open>The key labels of a call, and the first exception of a list of results.\<close>

definition key_labels :: "string \<Rightarrow> string option \<Rightarrow> string list" where
  "key_labels i cols = i # (case cols of None \<Rightarrow> [] | Some g \<Rightarrow> [g])"

fun first_error :: "(error + 'a) list \<Rightarrow> error option" where
  "first_error [] = None"
| "first_error (Inl e # xs) = Some e"
| "first_error (Inr a # xs) = first_error xs"

text \<open>
  \<^verbatim>\<open>pd.pivot_table\<close>. A value label that is not a column raises KeyError. A key label
  that is not a column raises KeyError too, unless there are as many key labels as rows:
  the library then reads the list of labels as one label per row. With no value label
  every column that is not a key is aggregated. What the library returns when it reads
  the labels as row labels, when a label is used twice, when there is no index label, and
  the frame it builds when there is no value label, are the parameter \<open>pivot_other\<close>.
\<close>

definition pivot_table ::
  "(aggfunc \<Rightarrow> scalar list \<Rightarrow> error + scalar)
     \<Rightarrow> (table \<Rightarrow> string option \<Rightarrow> string option \<Rightarrow> string option \<Rightarrow> aggfunc
          \<Rightarrow> error + pivot_df)
     \<Rightarrow> table \<Rightarrow> string option \<Rightarrow> string option \<Rightarrow> string option \<Rightarrow> aggfunc \<Rightarrow> scalar
     \<Rightarrow> error + pivot_df" where
  "pivot_table agg_object pivot_other data index cols vals f fill_value =
     (case index of
        None \<Rightarrow> pivot_other data index cols vals f
      | Some i \<Rightarrow>
          (case find (\<lambda>v. \<not> has_col data v) (case vals of None \<Rightarrow> [] | Some v \<Rightarrow> [v]) of
             Some v \<Rightarrow> Inl (KeyError v)
           | None \<Rightarrow>
               (case find (\<lambda>k. \<not> has_col data k) (key_labels i cols) of
                  Some k \<Rightarrow>
                    if length (key_labels i cols) = length (rows data)
                    then pivot_other data index cols vals f
                    else Inl (KeyError k)
                | None \<Rightarrow>
                    if \<not> distinct (key_labels i cols @
                                     (case vals of None \<Rightarrow> [] | Some v \<Rightarrow> [v]))
                    then pivot_other data index cols vals f
                    else
                      (case vals of
                         Some v \<Rightarrow>
                           pivot_groups agg_object data i (column_key cols v) v f fill_value
                       | None \<Rightarrow>
                           (case first_error
                                   (map (\<lambda>c. pivot_groups agg_object data i
                                                (column_key cols c) c f fill_value)
                                      (filter (\<lambda>c. c \<notin> set (key_labels i cols))
                                         (map fst (columns data)))) of
                              Some e \<Rightarrow> Inl e
                            | None \<Rightarrow> pivot_other data index cols vals f)))))"

text \<open>The number in a cell, and the sum of all cells of a pivot table.\<close>

fun num_of :: "scalar \<Rightarrow> rat" where
  "num_of (Num n) = n"
| "num_of v = 0"

definition cells_total :: "pivot_df \<Rightarrow> rat" where
  "cells_total pv = sum_list (map num_of (concat (cells pv)))"

subsection \<open>The pivot workspace\<close>

text \<open>
  What the user chose in the widgets of tab 3. A select box holds the position of the
  chosen option.
\<close>

record choices =
  dataset_choice :: string
  index_pick :: nat
  columns_pick :: nat
  values_pick :: nat
  aggfunc_pick :: aggfunc
  button_pressed :: bool
  chart_type :: string

text \<open>\<^verbatim>\<open>st.selectbox\<close>: the chosen option, and \<^verbatim>\<open>None\<close> when there is no option.\<close>

definition selectbox :: "'a list \<Rightarrow> nat \<Rightarrow> 'a option" where
  "selectbox opts k =
     (if opts = [] then None
      else if k < length opts then Some (opts ! k)
      else Some (hd opts))"

text \<open>
  \<^verbatim>\<open>df.columns.tolist()\<close> and \<^verbatim>\<open>df.select_dtypes(include='number').columns.tolist()\<close>.
  Column labels are taken to be unique.
\<close>

definition all_columns :: "table \<Rightarrow> string list" where
  "all_columns df = map fst (columns df)"

definition numeric_columns :: "table \<Rightarrow> string list" where
  "numeric_columns df = filter (\<lambda>c. dtype_of df c = Some Numeric) (all_columns df)"

text \<open>Lines 125 to 131: \<^verbatim>\<open>index\<close>, \<^verbatim>\<open>columns\<close> and \<^verbatim>\<open>values\<close> as the three select boxes give them.\<close>

definition pivot_inputs ::
  "table \<Rightarrow> choices \<Rightarrow> string option \<times> string option \<times> string option" where
  "pivot_inputs df_source ch =
     (selectbox (all_columns df_source) (index_pick ch),
      (case selectbox (None # map Some (all_columns df_source)) (columns_pick ch) of
         Some c \<Rightarrow> c | None \<Rightarrow> None),
      selectbox (numeric_columns df_source) (values_pick ch))"

text \<open>What the page shows, in the order it was drawn.\<close>

datatype 'fig element =
    Header string
  | Warning string
  | Selectbox string
  | Button string
  | Subheader string
  | Dataframe pivot_df
  | Radio string
  | PlotlyChart 'fig
  | ErrorBox error

text \<open>
  \<^verbatim>\<open>pivot_df.reset_index()\<close> inserts the index as a column and raises ValueError when a
  column already carries its label.
\<close>

definition reset_index :: "pivot_df \<Rightarrow> error + pivot_df" where
  "reset_index pv =
     (if Str (index_name pv) \<in> set (column_labels pv) then Inl ValueError else Inr pv)"

text \<open>
  Lines 137 to 163, the body of the \<^verbatim>\<open>try\<close>: the elements it drew and the exception that
  ended it, if any. \<^verbatim>\<open>columns if columns else None\<close> turns the empty label into \<^verbatim>\<open>None\<close>.
  The charting routine \<^verbatim>\<open>px.bar\<close> or \<^verbatim>\<open>px.line\<close> is the parameter \<open>px\<close>, which takes the
  kind, the frame, \<open>x\<close> and the list \<open>y\<close>; it may raise.
\<close>

definition generate_pivot ::
  "(aggfunc \<Rightarrow> scalar list \<Rightarrow> error + scalar)
     \<Rightarrow> (table \<Rightarrow> string option \<Rightarrow> string option \<Rightarrow> string option \<Rightarrow> aggfunc
          \<Rightarrow> error + pivot_df)
     \<Rightarrow> (string \<Rightarrow> pivot_df \<Rightarrow> string option \<Rightarrow> scalar list \<Rightarrow> error + 'fig)
     \<Rightarrow> table \<Rightarrow> choices \<Rightarrow> 'fig element list \<times> error option" where
  "generate_pivot agg_object pivot_other px df_source ch =
     (case pivot_inputs df_source ch of (index, cols, vals) \<Rightarrow>
        (let truthy = (case cols of Some c \<Rightarrow> c \<noteq> [] | None \<Rightarrow> False);
             kind = (if chart_type ch = ''Bar Chart'' then ''bar'' else ''line'')
         in case pivot_table agg_object pivot_other df_source index
                   (if truthy then cols else None) vals (aggfunc_pick ch) (Num 0) of
              Inl e \<Rightarrow> ([], Some e)
            | Inr pivot_df \<Rightarrow>
                (let drawn = [Subheader ''Pivot Table Result'', Dataframe pivot_df,
                              Subheader ''Visualization'', Radio ''Chart Type'']
                 in case reset_index pivot_df of
                      Inl e \<Rightarrow> (drawn, Some e)
                    | Inr pivot_df_plot \<Rightarrow>
                        (case px kind pivot_df_plot index
                                (if truthy then column_labels pivot_df_plot
                                 else (case vals of Some v \<Rightarrow> [Str v] | None \<Rightarrow> [])) of
                           Inl e \<Rightarrow> (drawn, Some e)
                         | Inr fig \<Rightarrow> (drawn @ [PlotlyChart fig], None)))))"

text \<open>
  Lines 112 to 166. \<open>page\<close> holds the elements already drawn in this run; the result is
  the page after tab 3 and the exception that leaves the view, if any. The \<^verbatim>\<open>except\<close>
  clause catches what the body raises and draws it with \<^verbatim>\<open>st.error\<close>.
\<close>

definition tab3 ::
  "(aggfunc \<Rightarrow> scalar list \<Rightarrow> error + scalar)
     \<Rightarrow> (table \<Rightarrow> string option \<Rightarrow> string option \<Rightarrow> string option \<Rightarrow> aggfunc
          \<Rightarrow> error + pivot_df)
     \<Rightarrow> (string \<Rightarrow> pivot_df \<Rightarrow> string option \<Rightarrow> scalar list \<Rightarrow> error + 'fig)
     \<Rightarrow> table \<Rightarrow> table \<Rightarrow> choices \<Rightarrow> 'fig element list
     \<Rightarrow> 'fig element list \<times> error option" where
  "tab3 agg_object pivot_other px df_news df_stocks ch page =
     (let page = page @ [Header ''Pivot Table Workspace'', Selectbox ''Select Dataset''];
          df_source = (if dataset_choice ch = ''News'' then df_news else df_stocks)
      in if empty_df df_source
         then (page @ [Warning ''Selected dataset is empty.''], None)
         else
           (let page = page @ [Selectbox ''Index (Rows)'', Selectbox ''Columns (Optional)'',
                               Selectbox ''Values (Agg Target)'',
                               Selectbox ''Aggregation Function'',
                               Button ''Generate Pivot Table'']
            in if button_pressed ch
               then (case generate_pivot agg_object pivot_other px df_source ch of
                       (drawn, None) \<Rightarrow> (page @ drawn, None)
                     | (drawn, Some e) \<Rightarrow> (page @ drawn @ [ErrorBox e], None))
               else (page, None)))"

text \<open>A news table without a numeric column.\<close>

definition news_example :: table where
  "news_example =
     \<lparr>columns = [(''category'', Object), (''sector'', Object)],
      rows = [[(''category'', Str ''Markets''), (''sector'', Str ''Tech'')]]\<rparr>"

text \<open>Two stock rows of one sector, the price of the second missing.\<close>

definition stocks_missing_price :: table where
  "stocks_missing_price =
     \<lparr>columns = [(''sector'', Object), (''stock_name'', Object), (''price'', Numeric)],
      rows = [[(''sector'', Str ''Tech''), (''stock_name'', Str ''A''), (''price'', Num 10)],
              [(''sector'', Str ''Tech''), (''stock_name'', Str ''B''), (''price'', Null)]]\<rparr>"

text \<open>Two stock rows of two sectors, the stock name of the first missing.\<close>

definition stocks_missing_name :: table where
  "stocks_missing_name =
     \<lparr>columns = [(''sector'', Object), (''stock_name'', Object), (''price'', Numeric)],
      rows = [[(''sector'', Str ''Tech''), (''stock_name'', Null), (''price'', Num 10)],
              [(''sector'', Str ''Fin''), (''stock_name'', Str ''B''), (''price'', Num 20)]]\<rparr>"


section \<open>Properties of the filters\<close>

lemma has_col_select [simp]: "has_col (select_rows p df) c = has_col df c"
  by (simp add: has_col_def select_rows_def)

lemma dtype_of_select [simp]: "dtype_of (select_rows p df) c = dtype_of df c"
  by (simp add: dtype_of_def select_rows_def)

lemma rows_select [simp]: "rows (select_rows p df) = filter p (rows df)"
  by (simp add: select_rows_def)

lemma select_rows_twice:
  "select_rows p (select_rows q df) = select_rows (\<lambda>r. q r \<and> p r) df"
  by (simp add: select_rows_def)

lemma select_rows_cong:
  "(\<And>r. r \<in> set (rows df) \<Longrightarrow> p r = q r) \<Longrightarrow> select_rows p df = select_rows q df"
  by (simp add: select_rows_def cong: filter_cong)

lemma stock_pred_select [simp]: "stock_pred (select_rows p df) = stock_pred df"
  by (simp add: stock_pred_def fun_eq_iff)

text \<open>The two membership filters of tab 2 select the rows of \<open>stock_pred\<close>.\<close>

lemma stock_prefilter:
  "(if (if has_col T ''stock_name'' then ns else []) \<noteq> []
    then select_rows
           (\<lambda>r. isin (cell r ''stock_name'') (if has_col T ''stock_name'' then ns else []))
           (if (if has_col T ''sector'' then ss else []) \<noteq> []
            then select_rows
                   (\<lambda>r. isin (cell r ''sector'') (if has_col T ''sector'' then ss else [])) T
            else T)
    else (if (if has_col T ''sector'' then ss else []) \<noteq> []
          then select_rows
                 (\<lambda>r. isin (cell r ''sector'') (if has_col T ''sector'' then ss else [])) T
          else T))
   = select_rows (stock_pred T ss ns) T"
  by (auto simp add: stock_pred_def select_rows_def cong: filter_cong)

lemma stock_filters_snd:
  "snd (stock_filters parse T ss ns dr) =
     (if has_col T ''date''
      then (case dr of
              DateRange s e \<Rightarrow> date_between (select_rows (stock_pred T ss ns) T) s e
            | NoRange \<Rightarrow> Inr (select_rows (stock_pred T ss ns) T))
      else Inr (select_rows (stock_pred T ss ns) T))"
  unfolding stock_filters_def Let_def stock_prefilter
  by (simp split: date_input.splits)

lemma date_between_Inr:
  "date_between df s e = Inr df' \<Longrightarrow>
     df' = select_rows (\<lambda>r. in_range s e (cell r ''date'')) df \<and>
     dtype_of df ''date'' \<noteq> Some Numeric \<and>
     (\<forall>r\<in>set (rows df). orderable (cell r ''date''))"
  by (auto simp add: date_between_def list_ex_iff split: if_splits)

lemma date_between_again:
  assumes "date_between (select_rows q df) s e = Inr df'"
  shows "date_between (select_rows q df') s e = Inr df'"
proof -
  from date_between_Inr [OF assms]
  have eq: "df' = select_rows (\<lambda>r. q r \<and> in_range s e (cell r ''date'')) df"
    and dt: "dtype_of df ''date'' \<noteq> Some Numeric"
    and ok: "\<forall>r\<in>set (rows df). q r \<longrightarrow> orderable (cell r ''date'')"
    by (simp_all add: select_rows_twice)
  have "select_rows (\<lambda>r. in_range s e (cell r ''date'')) (select_rows q df') = df'"
    unfolding eq select_rows_twice by (rule select_rows_cong) auto
  moreover have "\<not> list_ex (\<lambda>r. \<not> orderable (cell r ''date'')) (rows (select_rows q df'))"
    using ok by (auto simp add: eq list_ex_iff)
  ultimately show ?thesis
    using dt by (simp add: date_between_def eq)
qed

text \<open>A stock filter that returned a frame returns that frame again when run on it.\<close>

lemma stock_filters_again:
  assumes "snd (stock_filters parse T ss ns dr) = Inr T'"
  shows "snd (stock_filters parse T' ss ns dr) = Inr T'"
proof -
  let ?q = "stock_pred T ss ns"
  have idem: "select_rows ?q (select_rows ?q T) = select_rows ?q T"
    unfolding select_rows_twice by (rule select_rows_cong) auto
  show ?thesis
  proof (cases "has_col T ''date''")
    case False
    with assms have "T' = select_rows ?q T" by (simp add: stock_filters_snd)
    with False idem show ?thesis by (simp add: stock_filters_snd)
  next
    case True
    show ?thesis
    proof (cases dr)
      case NoRange
      with True assms have "T' = select_rows ?q T" by (simp add: stock_filters_snd)
      with True NoRange idem show ?thesis by (simp add: stock_filters_snd)
    next
      case (DateRange s e)
      with True assms have db: "date_between (select_rows ?q T) s e = Inr T'"
        by (simp add: stock_filters_snd)
      from date_between_Inr [OF db]
      have T': "T' = select_rows (\<lambda>r. in_range s e (cell r ''date'')) (select_rows ?q T)"
        by simp
      have "has_col T' ''date''" "stock_pred T' ss ns = ?q"
        using True by (simp_all add: T')
      with date_between_again [OF db] DateRange show ?thesis
        by (simp add: stock_filters_snd)
    qed
  qed
qed

text \<open>
  Claim C7. With no category and no sector chosen the news filters return the news table
  as it is; with no sector, no stock name and no date range chosen the stock filters
  return without an exception, and their result is the stock table as it is.
\<close>

theorem inert_filters_identity:
  "news_filters T [] [] = T \<and> snd (stock_filters parse T [] [] NoRange) = Inr T"
  by (simp add: news_filters_def stock_filters_def Let_def)

text \<open>
  Claim C9. Filtering is idempotent. The news filters applied to their own result, with
  the same choices, give that result. The stock filters may end in an exception; run on
  their own result with the same choices they give what the first run gave, the frame or
  the exception.
\<close>

theorem filters_idempotent:
  "news_filters (news_filters T cs ss) cs ss = news_filters T cs ss \<and>
   and_then (snd (stock_filters parse S ps pn dr))
            (\<lambda>S'. snd (stock_filters parse S' ps pn dr))
     = snd (stock_filters parse S ps pn dr)"
proof
  show "news_filters (news_filters T cs ss) cs ss = news_filters T cs ss"
    by (auto simp add: news_filters_def Let_def select_rows_twice intro!: select_rows_cong)
  show "and_then (snd (stock_filters parse S ps pn dr))
            (\<lambda>S'. snd (stock_filters parse S' ps pn dr))
     = snd (stock_filters parse S ps pn dr)"
    by (cases "snd (stock_filters parse S ps pn dr)")
       (simp_all add: and_then_def stock_filters_again)
qed

text \<open>
  Claim C2, at the stock table of the scenario with its dates as text. After the stock
  filters have run, the global \<^verbatim>\<open>df_stocks\<close> is no longer the table that was loaded: its
  date column has been replaced by the converted one.
\<close>

theorem stock_filters_mutate_source:
  "fst (stock_filters parse stocks_example [] [] NoRange) \<noteq> stocks_example \<and>
   dtype_of (fst (stock_filters parse stocks_example [] [] NoRange)) ''date'' = Some Datetime"
  by (simp add: stock_filters_def stocks_example_def has_col_def set_column_def Let_def
      dtype_of_def)

text \<open>
  On a date column that holds timestamps and missing values only, the range comparison
  keeps exactly the rows whose timestamp lies in the range.
\<close>

lemma date_between_timestamps:
  assumes "dtype_of df ''date'' \<noteq> Some Numeric"
    and "\<forall>r\<in>set (rows df). orderable (cell r ''date'')"
  shows "date_between df start end
     = Inr (select_rows (\<lambda>r. \<exists>d. cell r ''date'' = Date d \<and> start \<le> d \<and> d \<le> end) df)"
proof -
  have "in_range start end x = (\<exists>d. x = Date d \<and> start \<le> d \<and> d \<le> end)" for x
    by (cases x) auto
  with assms show ?thesis
    by (simp add: date_between_def list_ex_iff)
qed

text \<open>
  Claim C5, at the stock table of the scenario with its dates as text. The filtered copy
  was taken before the conversion, so the range comparison meets the text cells and the
  filter ends in TypeError, whatever the range and whatever the conversion would give.
\<close>

theorem date_filter_raises_on_text:
  "snd (stock_filters parse stocks_example [] [] (DateRange start end)) = Inl TypeError"
  by (simp add: stock_filters_def stocks_example_def has_col_def Let_def date_between_def
      dtype_of_def cell_def)

text \<open>
  Claim C8. On the stock table of the scenario, the pivot with index \<^verbatim>\<open>sector\<close>, no column
  label, values \<^verbatim>\<open>price\<close> and \<^verbatim>\<open>sum\<close> has the one row \<^verbatim>\<open>Tech\<close> and the one column
  \<^verbatim>\<open>price\<close>, with the cell 30. The same holds of the table as tab 2 leaves it, which is
  the one tab 3 reads.
\<close>

theorem pivot_scenario_sum:
  "pivot_table agg_object pivot_other stocks_example (Some ''sector'') None (Some ''price'')
     AggSum (Num 0)
   = Inr \<lparr>index_name = ''sector'', index_values = [Str ''Tech''],
          column_labels = [Str ''price''], cells = [[Num 30]]\<rparr> \<and>
   pivot_table agg_object pivot_other
     (fst (stock_filters parse stocks_example picked_sectors picked_names date_range))
     (Some ''sector'') None (Some ''price'') AggSum (Num 0)
   = Inr \<lparr>index_name = ''sector'', index_values = [Str ''Tech''],
          column_labels = [Str ''price''], cells = [[Num 30]]\<rparr>"
  by (cases date_range)
     (simp_all add: pivot_table_def stocks_example_def has_col_def pivot_groups_def
      group_keys_def live_rows_def partition_of_def cell_def dtype_of_def aggregate_def
      lay_out_def sorted_unique_def mixes_kinds_def column_key_def key_labels_def
      stock_filters_def Let_def set_column_def)

section \<open>Properties of the pivot table\<close>

lemma aggregate_total:
  "dt = Some Numeric \<or> f = AggCount \<Longrightarrow> \<exists>x. aggregate ao dt f vs = Inr x"
  by (cases f) (auto simp add: aggregate_def)

lemma aggregate_count:
  "aggregate ao dt AggCount vs = Inr (Num (of_nat (length (filter (\<lambda>v. v \<noteq> Null) vs))))"
  by (simp add: aggregate_def)

lemma agg_all_map:
  "agg_all (map (\<lambda>k. (k, Inr (h k))) ks) = Inr (map (\<lambda>k. (k, h k)) ks)"
  by (induction ks) simp_all

lemma agg_all_total:
  "(\<forall>k\<in>set ks. \<exists>a. F k = Inr a) \<Longrightarrow>
     agg_all (map (\<lambda>k. (k, F k)) ks) = Inr (map (\<lambda>k. (k, projr (F k))) ks)"
  by (induction ks) auto

text \<open>Keys that compare are grouped into their distinct values that are not missing.\<close>

lemma sorted_unique_ok:
  assumes "\<not> mixes_kinds vs"
  shows "\<exists>us. sorted_unique vs = Inr us \<and> distinct us \<and> set us = set vs - {Null}"
  using assms by (auto simp add: sorted_unique_def)

lemma sorted_unique_outcome:
  "(\<exists>us. sorted_unique vs = Inr us) \<or> sorted_unique vs = Inl TypeError"
  by (simp add: sorted_unique_def)

lemma lay_out_full:
  assumes "\<forall>k\<in>set ks. h k \<noteq> Null"
  shows "lay_out i fill_value iu gu (map (\<lambda>k. (k, h k)) ks) =
     \<lparr>index_name = i, index_values = filter (\<lambda>a. a \<in> fst ` set ks) iu,
      column_labels = filter (\<lambda>b. b \<in> snd ` set ks) gu,
      cells = map (\<lambda>a. map (\<lambda>b. if (a, b) \<in> set ks then h (a, b) else fill_value)
                         (filter (\<lambda>b. b \<in> snd ` set ks) gu))
                  (filter (\<lambda>a. a \<in> fst ` set ks) iu)\<rparr>"
proof -
  have kept: "filter (\<lambda>(k, x). x \<noteq> Null) (map (\<lambda>k. (k, h k)) ks) = map (\<lambda>k. (k, h k)) ks"
    using assms by (induction ks) auto
  have look: "map_of (map (\<lambda>k. (k, h k)) ks) k = (if k \<in> set ks then Some (h k) else None)"
    for k
    by (simp add: map_of_map_restrict restrict_map_def)
  show ?thesis
    unfolding lay_out_def Let_def kept
    by (simp add: look comp_def split_def)
qed

lemma set_group_keys:
  "set (group_keys i gv rs)
     = (\<lambda>r. (cell r i, gv r)) ` {r \<in> set rs. cell r i \<noteq> Null \<and> gv r \<noteq> Null}"
  by (auto simp add: group_keys_def live_rows_def)

lemma group_keys_nonnull:
  "(a, b) \<in> set (group_keys i gv rs) \<Longrightarrow> a \<noteq> Null \<and> b \<noteq> Null"
  by (auto simp add: set_group_keys)

text \<open>
  The outcome of the grouping when the keys compare and every group has an aggregate
  that is not missing.
\<close>

lemma pivot_groups_layout:
  assumes agg: "\<forall>k\<in>set (group_keys i gv (rows data)). h k \<noteq> Null \<and>
             aggregate ao (dtype_of data v) f
               (map (\<lambda>r. cell r v) (partition_of i gv (rows data) (fst k) (snd k))) = Inr (h k)"
    and cmp: "\<not> mixes_kinds (map (\<lambda>r. cell r i) (rows data))"
      "\<not> mixes_kinds (map gv (rows data))"
  shows "\<exists>I G. pivot_groups ao data i gv v f fill_value =
       Inr \<lparr>index_name = i, index_values = I, column_labels = G,
            cells = map (\<lambda>a. map (\<lambda>b. if (a, b) \<in> set (group_keys i gv (rows data))
                                       then h (a, b) else fill_value) G) I\<rparr> \<and>
     distinct I \<and> set I = fst ` set (group_keys i gv (rows data)) \<and>
     distinct G \<and> set G = snd ` set (group_keys i gv (rows data))"
proof -
  let ?ks = "group_keys i gv (rows data)"
  from sorted_unique_ok [OF cmp(1)] obtain iu where
    iu: "sorted_unique (map (\<lambda>r. cell r i) (rows data)) = Inr iu" "distinct iu"
      "set iu = set (map (\<lambda>r. cell r i) (rows data)) - {Null}"
    by blast
  from sorted_unique_ok [OF cmp(2)] obtain gu where
    gu: "sorted_unique (map gv (rows data)) = Inr gu" "distinct gu"
      "set gu = set (map gv (rows data)) - {Null}"
    by blast
  have eq: "map (\<lambda>k. (k, aggregate ao (dtype_of data v) f
               (map (\<lambda>r. cell r v) (partition_of i gv (rows data) (fst k) (snd k))))) ?ks
        = map (\<lambda>k. (k, Inr (h k))) ?ks"
    using agg by simp
  have pg: "pivot_groups ao data i gv v f fill_value
      = Inr (lay_out i fill_value iu gu (map (\<lambda>k. (k, h k)) ?ks))"
    by (simp only: pivot_groups_def split_def prod.collapse eq agg_all_map sum.case iu gu)
  let ?I = "filter (\<lambda>a. a \<in> fst ` set ?ks) iu"
  let ?G = "filter (\<lambda>b. b \<in> snd ` set ?ks) gu"
  have "fst ` set ?ks \<subseteq> set iu" "snd ` set ?ks \<subseteq> set gu"
    by (auto simp add: iu gu set_group_keys)
  then have "set ?I = fst ` set ?ks" "set ?G = snd ` set ?ks" by auto
  moreover have "distinct ?I" "distinct ?G" using iu(2) gu(2) by simp_all
  moreover from agg have "pivot_groups ao data i gv v f fill_value =
       Inr \<lparr>index_name = i, index_values = ?I, column_labels = ?G,
            cells = map (\<lambda>a. map (\<lambda>b. if (a, b) \<in> set ?ks then h (a, b) else fill_value) ?G)
                      ?I\<rparr>"
    unfolding pg by (subst lay_out_full) simp_all
  ultimately show ?thesis by blast
qed

lemma pivot_groups_outcome:
  assumes "dtype_of data v = Some Numeric \<or> f = AggCount"
  shows "(\<exists>pv. pivot_groups ao data i gv v f fill_value = Inr pv) \<or>
         pivot_groups ao data i gv v f fill_value = Inl TypeError"
proof -
  let ?F = "\<lambda>k. aggregate ao (dtype_of data v) f
                 (map (\<lambda>r. cell r v) (partition_of i gv (rows data) (fst k) (snd k)))"
  have "\<forall>k\<in>set (group_keys i gv (rows data)). \<exists>a. ?F k = Inr a"
    using aggregate_total [OF assms] by blast
  from agg_all_total [of _ ?F, OF this]
    sorted_unique_outcome [of "map (\<lambda>r. cell r i) (rows data)"]
    sorted_unique_outcome [of "map gv (rows data)"]
  show ?thesis
    by (auto simp add: pivot_groups_def split_def)
qed



lemma pivot_table_modelled:
  assumes "has_col data i" "has_col data v" "i \<noteq> v"
    and "\<forall>g. cols = Some g \<longrightarrow> has_col data g \<and> g \<noteq> i \<and> g \<noteq> v"
  shows "pivot_table ao po data (Some i) cols (Some v) f fill_value
           = pivot_groups ao data i (column_key cols v) v f fill_value"
  using assms by (cases cols) (auto simp add: pivot_table_def key_labels_def)

lemma partition_of_nonnull:
  "a \<noteq> Null \<Longrightarrow> b \<noteq> Null \<Longrightarrow>
     partition_of i gv rs a b = filter (\<lambda>r. cell r i = a \<and> gv r = b) rs"
  by (auto simp add: partition_of_def live_rows_def intro: filter_cong)

lemma length_filter_map: "length (filter P (map f xs)) = length (filter (\<lambda>x. P (f x)) xs)"
  by (induction xs) simp_all

lemma length_filter_disjoint:
  "(\<And>r. \<not> (A r \<and> B r)) \<Longrightarrow>
     length (filter A rs) + length (filter B rs) = length (filter (\<lambda>r. A r \<or> B r) rs)"
  by (induction rs) auto

text \<open>Counting the rows key by key counts every row with a listed key once.\<close>

lemma count_by_key:
  "distinct ks \<Longrightarrow>
     (\<Sum>k\<leftarrow>ks. length (filter (\<lambda>r. key r = k \<and> P r) rs))
       = length (filter (\<lambda>r. key r \<in> set ks \<and> P r) rs)"
proof (induction ks)
  case Nil
  then show ?case by simp
next
  case (Cons k ks)
  have "length (filter (\<lambda>r. key r = k \<and> P r) rs)
          + length (filter (\<lambda>r. key r \<in> set ks \<and> P r) rs)
        = length (filter (\<lambda>r. (key r = k \<and> P r) \<or> (key r \<in> set ks \<and> P r)) rs)"
    using Cons.prems by (intro length_filter_disjoint) auto
  also have "\<dots> = length (filter (\<lambda>r. key r \<in> set (k # ks) \<and> P r) rs)"
    by (rule arg_cong [where f = length], rule filter_cong) auto
  finally show ?case using Cons by simp
qed

lemma count_by_two_keys:
  assumes "distinct as" "distinct bs"
  shows "(\<Sum>a\<leftarrow>as. \<Sum>b\<leftarrow>bs. length (filter (\<lambda>r. k1 r = a \<and> k2 r = b \<and> P r) rs))
       = length (filter (\<lambda>r. k1 r \<in> set as \<and> k2 r \<in> set bs \<and> P r) rs)"
proof -
  have "(\<Sum>b\<leftarrow>bs. length (filter (\<lambda>r. k1 r = a \<and> k2 r = b \<and> P r) rs))
      = length (filter (\<lambda>r. k1 r = a \<and> k2 r \<in> set bs \<and> P r) rs)" for a
    using count_by_key [OF assms(2), of k2 "\<lambda>r. k1 r = a \<and> P r" rs]
    by (simp add: conj_left_commute)
  then show ?thesis
    using count_by_key [OF assms(1), of k1 "\<lambda>r. k2 r \<in> set bs \<and> P r" rs] by simp
qed

lemma sum_cells:
  "sum_list (map num_of (concat (map (\<lambda>a. map (\<lambda>b. Num (of_nat (c a b))) bs) as)))
     = of_nat (\<Sum>a\<leftarrow>as. \<Sum>b\<leftarrow>bs. c a b)"
proof -
  have "sum_list (map num_of (map (\<lambda>b. Num (of_nat (c a b))) bs)) = of_nat (\<Sum>b\<leftarrow>bs. c a b)"
    for a
    by (simp add: comp_def sum_list_of_nat [symmetric])
  then show ?thesis
    by (induction as) simp_all
qed

text \<open>
  Claim C1, as amended. The index, value and column labels being present and different,
  and neither key column holding both numbers and timestamps, a \<^verbatim>\<open>count\<close> pivot succeeds,
  and each of its cells is the number of rows that carry the index value of the cell's
  row and the column key of the cell's column and whose value cell is not missing. The
  cells add up to the number of rows of the table whose index cell, column key and value
  cell are all present.
\<close>

theorem count_pivot_cells:
  assumes "has_col data i" "has_col data v" "i \<noteq> v"
    and "\<forall>g. cols = Some g \<longrightarrow> has_col data g \<and> g \<noteq> i \<and> g \<noteq> v"
    and cmp: "\<not> mixes_kinds (map (\<lambda>r. cell r i) (rows data))"
      "\<not> mixes_kinds (map (column_key cols v) (rows data))"
  shows "\<exists>pv. pivot_table ao po data (Some i) cols (Some v) AggCount (Num 0) = Inr pv \<and>
     length (cells pv) = length (index_values pv) \<and>
     (\<forall>m<length (index_values pv).
        length (cells pv ! m) = length (column_labels pv) \<and>
        (\<forall>n<length (column_labels pv).
           cells pv ! m ! n = Num (of_nat (length (filter
             (\<lambda>r. cell r i = index_values pv ! m \<and> column_key cols v r = column_labels pv ! n \<and>
                  cell r v \<noteq> Null) (rows data)))))) \<and>
     cells_total pv = of_nat (length (filter
        (\<lambda>r. cell r i \<noteq> Null \<and> column_key cols v r \<noteq> Null \<and> cell r v \<noteq> Null) (rows data)))"
proof -
  define gv where "gv = column_key cols v"
  define rs where "rs = rows data"
  define ks where "ks = group_keys i gv rs"
  define c where
    "c = (\<lambda>a b. length (filter (\<lambda>r. cell r i = a \<and> gv r = b \<and> cell r v \<noteq> Null) rs))"
  define h where "h = (\<lambda>k. Num (of_nat (length (filter (\<lambda>x. x \<noteq> Null)
       (map (\<lambda>r. cell r v) (partition_of i gv rs (fst k) (snd k)))))))"
  have "\<forall>k\<in>set (group_keys i gv (rows data)). h k \<noteq> Null \<and>
             aggregate ao (dtype_of data v) AggCount
               (map (\<lambda>r. cell r v) (partition_of i gv (rows data) (fst k) (snd k))) = Inr (h k)"
    by (simp add: h_def aggregate_count rs_def)
  moreover have "\<not> mixes_kinds (map gv (rows data))" using cmp(2) by (simp add: gv_def)
  ultimately obtain I G where
    pg: "pivot_groups ao data i gv v AggCount (Num 0) =
       Inr \<lparr>index_name = i, index_values = I, column_labels = G,
            cells = map (\<lambda>a. map (\<lambda>b. if (a, b) \<in> set ks then h (a, b) else Num 0) G) I\<rparr>"
    and dI: "distinct I" and sI: "set I = fst ` set ks"
    and dG: "distinct G" and sG: "set G = snd ` set ks"
    using pivot_groups_layout [of i gv data h ao v AggCount "Num 0"] cmp(1)
    unfolding ks_def rs_def by blast
  define pv where "pv = \<lparr>index_name = i, index_values = I, column_labels = G,
      cells = map (\<lambda>a. map (\<lambda>b. Num (of_nat (c a b))) G) I\<rparr>"
  have nn: "a \<noteq> Null \<and> b \<noteq> Null" if "a \<in> set I" "b \<in> set G" for a b
    using that group_keys_nonnull [of _ _ i gv rs] by (auto simp add: sI sG ks_def)
  have cellab: "(if (a, b) \<in> set ks then h (a, b) else Num 0) = Num (of_nat (c a b))"
    if "a \<in> set I" "b \<in> set G" for a b
  proof (cases "(a, b) \<in> set ks")
    case True
    with nn [OF that] show ?thesis
      by (simp add: h_def c_def partition_of_nonnull length_filter_map)
  next
    case False
    with nn [OF that]
    have "filter (\<lambda>r. cell r i = a \<and> gv r = b \<and> cell r v \<noteq> Null) rs = []"
      by (auto simp add: ks_def set_group_keys filter_empty_conv)
    with False show ?thesis by (simp add: c_def)
  qed
  have "map (\<lambda>a. map (\<lambda>b. if (a, b) \<in> set ks then h (a, b) else Num 0) G) I
      = map (\<lambda>a. map (\<lambda>b. Num (of_nat (c a b))) G) I"
    using cellab by (intro map_cong refl) auto
  with pg have pt: "pivot_table ao po data (Some i) cols (Some v) AggCount (Num 0) = Inr pv"
    using pivot_table_modelled [OF assms(1-4)] by (simp add: pv_def gv_def)
  have "(\<Sum>a\<leftarrow>I. \<Sum>b\<leftarrow>G. c a b)
      = length (filter (\<lambda>r. cell r i \<in> set I \<and> gv r \<in> set G \<and> cell r v \<noteq> Null) rs)"
    unfolding c_def by (rule count_by_two_keys [OF dI dG])
  also have "filter (\<lambda>r. cell r i \<in> set I \<and> gv r \<in> set G \<and> cell r v \<noteq> Null) rs
      = filter (\<lambda>r. cell r i \<noteq> Null \<and> gv r \<noteq> Null \<and> cell r v \<noteq> Null) rs"
  proof (rule filter_cong [OF refl])
    fix r assume r: "r \<in> set rs"
    have "cell r i \<in> set I \<and> gv r \<in> set G \<longleftrightarrow> cell r i \<noteq> Null \<and> gv r \<noteq> Null"
    proof
      assume "cell r i \<in> set I \<and> gv r \<in> set G"
      then show "cell r i \<noteq> Null \<and> gv r \<noteq> Null" using nn by blast
    next
      assume "cell r i \<noteq> Null \<and> gv r \<noteq> Null"
      with r have "(cell r i, gv r) \<in> set ks" by (auto simp add: ks_def set_group_keys)
      then show "cell r i \<in> set I \<and> gv r \<in> set G"
        by (force simp add: sI sG)
    qed
    then show "(cell r i \<in> set I \<and> gv r \<in> set G \<and> cell r v \<noteq> Null)
        = (cell r i \<noteq> Null \<and> gv r \<noteq> Null \<and> cell r v \<noteq> Null)" by blast
  qed
  finally have total: "cells_total pv = of_nat (length (filter
        (\<lambda>r. cell r i \<noteq> Null \<and> gv r \<noteq> Null \<and> cell r v \<noteq> Null) rs))"
    by (simp add: cells_total_def pv_def sum_cells)
  have "length (cells pv) = length (index_values pv)" by (simp add: pv_def)
  moreover have "\<forall>m<length (index_values pv).
        length (cells pv ! m) = length (column_labels pv) \<and>
        (\<forall>n<length (column_labels pv).
           cells pv ! m ! n = Num (of_nat (c (index_values pv ! m) (column_labels pv ! n))))"
    by (simp add: pv_def)
  ultimately show ?thesis
    using pt total unfolding c_def gv_def rs_def by blast
qed

theorem count_pivot_cells_witness:
  "\<exists>pv. pivot_table (\<lambda>f vs. Inl TypeError) (\<lambda>d i c v f. Inl ValueError)
          stocks_missing_price (Some ''sector'') (Some ''stock_name'') (Some ''price'')
          AggCount (Num 0) = Inr pv \<and> cells_total pv = 1"
proof -
  have "has_col stocks_missing_price ''sector''" "has_col stocks_missing_price ''price''"
    "''sector'' \<noteq> ''price''"
    "\<forall>g. Some ''stock_name'' = Some g \<longrightarrow>
       has_col stocks_missing_price g \<and> g \<noteq> ''sector'' \<and> g \<noteq> ''price''"
    "\<not> mixes_kinds (map (\<lambda>r. cell r ''sector'') (rows stocks_missing_price))"
    "\<not> mixes_kinds (map (column_key (Some ''stock_name'') ''price'')
                       (rows stocks_missing_price))"
    by (simp_all add: has_col_def stocks_missing_price_def mixes_kinds_def cell_def
        column_key_def)
  from count_pivot_cells [OF this]
  obtain pv where
    "pivot_table (\<lambda>f vs. Inl TypeError) (\<lambda>d i c v f. Inl ValueError)
       stocks_missing_price (Some ''sector'') (Some ''stock_name'') (Some ''price'')
       AggCount (Num 0) = Inr pv"
    "cells_total pv = of_nat (length (filter
        (\<lambda>r. cell r ''sector'' \<noteq> Null \<and> column_key (Some ''stock_name'') ''price'' r \<noteq> Null \<and>
             cell r ''price'' \<noteq> Null) (rows stocks_missing_price)))"
    by blast
  moreover have "length (filter
        (\<lambda>r. cell r ''sector'' \<noteq> Null \<and> column_key (Some ''stock_name'') ''price'' r \<noteq> Null \<and>
             cell r ''price'' \<noteq> Null) (rows stocks_missing_price)) = 1"
    by (simp add: stocks_missing_price_def cell_def column_key_def)
  ultimately show ?thesis by auto
qed

text \<open>
  Claim C1 as stated fails: of the two \<^verbatim>\<open>Tech\<close> rows the second has no price, and the
  \<^verbatim>\<open>count\<close> cell is 1, not 2; so the cells do not add up to the number of rows.
\<close>

theorem count_skips_missing_counterexample:
  "pivot_table (\<lambda>f vs. Inl TypeError) (\<lambda>d i c v f. Inl ValueError)
     stocks_missing_price (Some ''sector'') None (Some ''price'') AggCount (Num 0)
   = Inr \<lparr>index_name = ''sector'', index_values = [Str ''Tech''],
          column_labels = [Str ''price''], cells = [[Num 1]]\<rparr> \<and>
   length (filter (\<lambda>r. cell r ''sector'' = Str ''Tech'') (rows stocks_missing_price)) = 2 \<and>
   length (rows stocks_missing_price) = 2"
  by (simp add: pivot_table_def stocks_missing_price_def has_col_def pivot_groups_def
      group_keys_def live_rows_def partition_of_def cell_def dtype_of_def aggregate_def
      lay_out_def sorted_unique_def mixes_kinds_def column_key_def key_labels_def)

lemma nums_nonempty:
  "\<exists>x\<in>set vs. is_number x \<Longrightarrow> nums vs \<noteq> []"
  by (induction vs rule: nums.induct) auto

lemma aggregate_present:
  assumes "f = AggCount \<or> dt = Some Numeric"
    and "f = AggSum \<or> f = AggCount \<or> (\<exists>x\<in>set vs. is_number x)"
  shows "\<exists>x. aggregate ao dt f vs = Inr x \<and> x \<noteq> Null"
proof (cases "f = AggSum \<or> f = AggCount")
  case True
  with assms(1) show ?thesis by (auto simp add: aggregate_def)
next
  case False
  with assms(2) have "\<exists>x\<in>set vs. is_number x" by auto
  then have "nums vs \<noteq> []" by (rule nums_nonempty)
  with False assms(1) show ?thesis
    by (cases f; cases "nums vs") (auto simp add: aggregate_def)
qed

text \<open>
  Claim C4, as amended. The index, column and value labels being present and different,
  the index and column cells of every row present, neither key column holding both
  numbers and timestamps, and the value column numeric (or the aggregation \<^verbatim>\<open>count\<close>) with
  a number in the value cell of at least one row of every combination that has rows (or
  the aggregation \<^verbatim>\<open>sum\<close> or \<^verbatim>\<open>count\<close>): the pivot succeeds, its rows are the distinct
  values of the index column, each once, its columns are the distinct values of the
  column label's column, each once, every row has a cell for every column, a combination
  with source rows holds their aggregate and a combination without source rows holds 0.
\<close>

theorem pivot_dense:
  assumes present: "has_col data i" "has_col data v" "i \<noteq> v"
      "has_col data g" "g \<noteq> i" "g \<noteq> v"
    and keys: "\<forall>r\<in>set (rows data). cell r i \<noteq> Null \<and> cell r g \<noteq> Null"
    and cmp: "\<not> mixes_kinds (map (\<lambda>r. cell r i) (rows data))"
      "\<not> mixes_kinds (map (\<lambda>r. cell r g) (rows data))"
    and numeric: "f = AggCount \<or> dtype_of data v = Some Numeric"
    and vals: "f = AggSum \<or> f = AggCount \<or>
      (\<forall>r\<in>set (rows data). \<exists>r'\<in>set (rows data).
          cell r' i = cell r i \<and> cell r' g = cell r g \<and> is_number (cell r' v))"
  shows "\<exists>pv. pivot_table ao po data (Some i) (Some g) (Some v) f (Num 0) = Inr pv \<and>
     distinct (index_values pv) \<and>
     set (index_values pv) = (\<lambda>r. cell r i) ` set (rows data) \<and>
     distinct (column_labels pv) \<and>
     set (column_labels pv) = (\<lambda>r. cell r g) ` set (rows data) \<and>
     length (cells pv) = length (index_values pv) \<and>
     (\<forall>m<length (index_values pv).
        length (cells pv ! m) = length (column_labels pv) \<and>
        (\<forall>n<length (column_labels pv).
           if \<exists>r\<in>set (rows data).
                cell r i = index_values pv ! m \<and> cell r g = column_labels pv ! n
           then aggregate ao (dtype_of data v) f
                  (map (\<lambda>r. cell r v)
                     (filter (\<lambda>r. cell r i = index_values pv ! m \<and>
                                  cell r g = column_labels pv ! n) (rows data)))
                = Inr (cells pv ! m ! n)
           else cells pv ! m ! n = Num 0))"
proof -
  define gv where "gv = column_key (Some g) v"
  define rs where "rs = rows data"
  define ks where "ks = group_keys i gv rs"
  define F where "F = (\<lambda>a b. aggregate ao (dtype_of data v) f
       (map (\<lambda>r. cell r v) (filter (\<lambda>r. cell r i = a \<and> cell r g = b) rs)))"
  define h where "h = (\<lambda>k. projr (F (fst k) (snd k)))"
  have gv: "gv r = cell r g" for r by (simp add: gv_def column_key_def)
  have ks: "set ks = (\<lambda>r. (cell r i, cell r g)) ` set rs"
    using keys by (auto simp add: ks_def set_group_keys gv rs_def)
  have agg: "h k \<noteq> Null \<and>
      aggregate ao (dtype_of data v) f
        (map (\<lambda>r. cell r v) (partition_of i gv rs (fst k) (snd k))) = Inr (h k)"
    if "k \<in> set ks" for k
  proof -
    from that obtain r where r: "r \<in> set rs" "k = (cell r i, cell r g)"
      by (auto simp add: ks)
    with keys have nn: "fst k \<noteq> Null" "snd k \<noteq> Null" by (simp_all add: rs_def)
    let ?vs = "map (\<lambda>r. cell r v) (filter (\<lambda>r. cell r i = fst k \<and> cell r g = snd k) rs)"
    have "\<exists>x\<in>set ?vs. is_number x"
      if "\<forall>r\<in>set rs. \<exists>r'\<in>set rs.
            cell r' i = cell r i \<and> cell r' g = cell r g \<and> is_number (cell r' v)"
    proof -
      from that r(1) obtain r' where "r' \<in> set rs" "cell r' i = cell r i"
        "cell r' g = cell r g" "is_number (cell r' v)" by blast
      with r(2) show ?thesis by auto
    qed
    then have "\<exists>x. aggregate ao (dtype_of data v) f ?vs = Inr x \<and> x \<noteq> Null"
      using vals by (intro aggregate_present [OF numeric]) (auto simp add: rs_def)
    then show ?thesis
      using nn by (auto simp add: h_def F_def partition_of_nonnull gv)
  qed
  have gvf: "gv = (\<lambda>r. cell r g)" by (simp add: gv_def column_key_def)
  have "\<forall>k\<in>set (group_keys i gv (rows data)). h k \<noteq> Null \<and>
      aggregate ao (dtype_of data v) f
        (map (\<lambda>r. cell r v) (partition_of i gv (rows data) (fst k) (snd k))) = Inr (h k)"
    using agg by (simp add: ks_def rs_def)
  moreover have "\<not> mixes_kinds (map gv (rows data))" using cmp(2) by (simp add: gvf)
  ultimately obtain I G where
    pg: "pivot_groups ao data i gv v f (Num 0) =
       Inr \<lparr>index_name = i, index_values = I, column_labels = G,
            cells = map (\<lambda>a. map (\<lambda>b. if (a, b) \<in> set ks then h (a, b) else Num 0) G) I\<rparr>"
    and dI: "distinct I" and sI: "set I = fst ` set ks"
    and dG: "distinct G" and sG: "set G = snd ` set ks"
    using pivot_groups_layout [of i gv data h ao v f "Num 0"] cmp(1)
    unfolding ks_def rs_def by blast
  define pv where "pv = \<lparr>index_name = i, index_values = I, column_labels = G,
      cells = map (\<lambda>a. map (\<lambda>b. if (a, b) \<in> set ks then h (a, b) else Num 0) G) I\<rparr>"
  from pg present have pt: "pivot_table ao po data (Some i) (Some g) (Some v) f (Num 0) = Inr pv"
    by (simp add: pivot_table_modelled gv_def pv_def)
  have sI': "set I = (\<lambda>r. cell r i) ` set rs" and sG': "set G = (\<lambda>r. cell r g) ` set rs"
    by (auto simp add: sI sG ks image_iff)
  have cellmn: "if \<exists>r\<in>set rs. cell r i = I ! m \<and> cell r g = G ! n
           then F (I ! m) (G ! n) = Inr (cells pv ! m ! n)
           else cells pv ! m ! n = Num 0"
    if "m < length I" "n < length G" for m n
  proof (cases "(I ! m, G ! n) \<in> set ks")
    case True
    then have "\<exists>r\<in>set rs. cell r i = I ! m \<and> cell r g = G ! n" by (auto simp add: ks)
    moreover from agg [OF True] keys True have "F (I ! m) (G ! n) = Inr (h (I ! m, G ! n))"
      by (auto simp add: F_def ks partition_of_nonnull gv rs_def)
    ultimately show ?thesis using that True by (simp add: pv_def)
  next
    case False
    then have no: "\<not> (\<exists>r\<in>set rs. cell r i = I ! m \<and> cell r g = G ! n)"
      by (force simp add: ks)
    from that False have "cells pv ! m ! n = Num 0" by (simp add: pv_def)
    with no show ?thesis by (simp only: if_False)
  qed
  have "distinct (index_values pv)" "distinct (column_labels pv)"
    "set (index_values pv) = (\<lambda>r. cell r i) ` set rs"
    "set (column_labels pv) = (\<lambda>r. cell r g) ` set rs"
    "length (cells pv) = length (index_values pv)"
    by (simp_all add: pv_def sI' sG' dI dG)
  moreover have "\<forall>m<length (index_values pv).
        length (cells pv ! m) = length (column_labels pv) \<and>
        (\<forall>n<length (column_labels pv).
           if \<exists>r\<in>set rs. cell r i = index_values pv ! m \<and> cell r g = column_labels pv ! n
           then F (index_values pv ! m) (column_labels pv ! n) = Inr (cells pv ! m ! n)
           else cells pv ! m ! n = Num 0)"
  proof (intro allI impI conjI)
    fix m assume "m < length (index_values pv)"
    then show "length (cells pv ! m) = length (column_labels pv)" by (simp add: pv_def)
  next
    fix m n assume "m < length (index_values pv)" "n < length (column_labels pv)"
    moreover have iv: "index_values pv = I" "column_labels pv = G" by (simp_all add: pv_def)
    ultimately have "m < length I" "n < length G" by simp_all
    from cellmn [OF this]
    show "if \<exists>r\<in>set rs. cell r i = index_values pv ! m \<and> cell r g = column_labels pv ! n
           then F (index_values pv ! m) (column_labels pv ! n) = Inr (cells pv ! m ! n)
           else cells pv ! m ! n = Num 0"
      by (simp only: iv)
  qed
  ultimately show ?thesis
    using pt unfolding F_def rs_def by blast
qed

theorem pivot_dense_witness:
  "\<exists>pv. pivot_table (\<lambda>f vs. Inl TypeError) (\<lambda>d i c v f. Inl ValueError)
          stocks_example (Some ''stock_name'') (Some ''date'') (Some ''price'')
          AggMean (Num 0) = Inr pv \<and>
        distinct (index_values pv) \<and> set (index_values pv) = {Str ''A'', Str ''B''} \<and>
        distinct (column_labels pv) \<and>
        set (column_labels pv) = {Str ''2024-01-01'', Str ''2024-01-02''} \<and>
        length (cells pv) = length (index_values pv)"
proof -
  have "has_col stocks_example ''stock_name''" "has_col stocks_example ''price''"
    "''stock_name'' \<noteq> ''price''" "has_col stocks_example ''date''"
    "''date'' \<noteq> ''stock_name''" "''date'' \<noteq> ''price''"
    "\<forall>r\<in>set (rows stocks_example). cell r ''stock_name'' \<noteq> Null \<and> cell r ''date'' \<noteq> Null"
    "\<not> mixes_kinds (map (\<lambda>r. cell r ''stock_name'') (rows stocks_example))"
    "\<not> mixes_kinds (map (\<lambda>r. cell r ''date'') (rows stocks_example))"
    "AggMean = AggCount \<or> dtype_of stocks_example ''price'' = Some Numeric"
    "AggMean = AggSum \<or> AggMean = AggCount \<or>
       (\<forall>r\<in>set (rows stocks_example). \<exists>r'\<in>set (rows stocks_example).
          cell r' ''stock_name'' = cell r ''stock_name'' \<and>
          cell r' ''date'' = cell r ''date'' \<and> is_number (cell r' ''price''))"
    by (simp_all add: has_col_def stocks_example_def cell_def dtype_of_def mixes_kinds_def)
  from pivot_dense [OF this, of "\<lambda>f vs. Inl TypeError" "\<lambda>d i c v f. Inl ValueError"]
  obtain pv where pv:
    "pivot_table (\<lambda>f vs. Inl TypeError) (\<lambda>d i c v f. Inl ValueError)
          stocks_example (Some ''stock_name'') (Some ''date'') (Some ''price'')
          AggMean (Num 0) = Inr pv"
    "distinct (index_values pv)"
    "set (index_values pv) = (\<lambda>r. cell r ''stock_name'') ` set (rows stocks_example)"
    "distinct (column_labels pv)"
    "set (column_labels pv) = (\<lambda>r. cell r ''date'') ` set (rows stocks_example)"
    "length (cells pv) = length (index_values pv)"
    by blast
  have "(\<lambda>r. cell r ''stock_name'') ` set (rows stocks_example) = {Str ''A'', Str ''B''}"
    "(\<lambda>r. cell r ''date'') ` set (rows stocks_example) = {Str ''2024-01-01'', Str ''2024-01-02''}"
    by (simp_all add: stocks_example_def cell_def)
  with pv show ?thesis by auto
qed

text \<open>
  Claim C4 as stated fails: the \<^verbatim>\<open>Tech\<close> row has no stock name, so it is in no group,
  and the result has the one row \<^verbatim>\<open>Fin\<close> although the index column has two distinct
  values.
\<close>

theorem null_group_counterexample:
  "pivot_table (\<lambda>f vs. Inl TypeError) (\<lambda>d i c v f. Inl ValueError)
     stocks_missing_name (Some ''sector'') (Some ''stock_name'') (Some ''price'') AggSum (Num 0)
   = Inr \<lparr>index_name = ''sector'', index_values = [Str ''Fin''],
          column_labels = [Str ''B''], cells = [[Num 20]]\<rparr> \<and>
   remdups (map (\<lambda>r. cell r ''sector'') (rows stocks_missing_name)) = [Str ''Tech'', Str ''Fin'']"
  by (simp add: pivot_table_def stocks_missing_name_def has_col_def pivot_groups_def
      group_keys_def live_rows_def partition_of_def cell_def dtype_of_def aggregate_def
      lay_out_def sorted_unique_def mixes_kinds_def column_key_def key_labels_def)




section \<open>Properties of the pivot workspace\<close>

lemma selectbox_some:
  assumes "opts \<noteq> []"
  shows "\<exists>x\<in>set opts. selectbox opts k = Some x"
proof (cases "k < length opts")
  case True
  with assms show ?thesis by (auto simp add: selectbox_def)
next
  case False
  with assms show ?thesis by (cases opts) (auto simp add: selectbox_def)
qed

lemma numeric_columns_set:
  "c \<in> set (numeric_columns df) \<Longrightarrow> has_col df c \<and> dtype_of df c = Some Numeric"
  by (simp add: numeric_columns_def all_columns_def has_col_def)

text \<open>
  Claim C10, as amended. On a table that is not empty and has a numeric column, the three
  select boxes give an index label that is a column, a value label that is a numeric
  column, and no column label or one that is a column. Then the pivot call, with that
  column label or with none, raises no KeyError of its own: if it ends in one, that is
  what the library raises on a call with a repeated label.
\<close>

theorem ui_pivot_inputs:
  assumes "\<not> empty_df df" and "numeric_columns df \<noteq> []"
  shows "\<exists>i v. fst (pivot_inputs df ch) = Some i \<and> has_col df i \<and>
           snd (snd (pivot_inputs df ch)) = Some v \<and> has_col df v \<and>
           dtype_of df v = Some Numeric \<and>
           (\<forall>g. fst (snd (pivot_inputs df ch)) = Some g \<longrightarrow> has_col df g) \<and>
           (\<forall>cols c. cols = None \<or> cols = fst (snd (pivot_inputs df ch)) \<longrightarrow>
              pivot_table ao po df (Some i) cols (Some v) f fill_value = Inl (KeyError c) \<longrightarrow>
              po df (Some i) cols (Some v) f = Inl (KeyError c))"
proof -
  from assms(1) have "all_columns df \<noteq> []" by (simp add: empty_df_def all_columns_def)
  from selectbox_some [OF this, of "index_pick ch"] obtain i where
    i: "selectbox (all_columns df) (index_pick ch) = Some i" "i \<in> set (all_columns df)"
    by blast
  from i(2) have hi: "has_col df i" by (simp add: all_columns_def has_col_def)
  from selectbox_some [OF assms(2), of "values_pick ch"] numeric_columns_set [of _ df]
  obtain v where
    v: "selectbox (numeric_columns df) (values_pick ch) = Some v" "has_col df v"
       "dtype_of df v = Some Numeric"
    by blast
  have "None # map Some (all_columns df) \<noteq> []" by simp
  from selectbox_some [OF this, of "columns_pick ch"] obtain c where
    c: "selectbox (None # map Some (all_columns df)) (columns_pick ch) = Some c"
       "c = None \<or> c \<in> Some ` set (all_columns df)"
    by auto
  have g: "\<forall>g. c = Some g \<longrightarrow> has_col df g"
    using c(2) by (auto simp add: all_columns_def has_col_def)
  have fail: "po df (Some i) cols (Some v) f = Inl (KeyError x)"
    if "cols = None \<or> cols = c"
      "pivot_table ao po df (Some i) cols (Some v) f fill_value = Inl (KeyError x)" for cols x
  proof (cases "i \<noteq> v \<and> (\<forall>g. cols = Some g \<longrightarrow> g \<noteq> i \<and> g \<noteq> v)")
    case True
    with that(1) g have "\<forall>g. cols = Some g \<longrightarrow> has_col df g \<and> g \<noteq> i \<and> g \<noteq> v" by auto
    with True hi v have "pivot_table ao po df (Some i) cols (Some v) f fill_value
        = pivot_groups ao df i (column_key cols v) v f fill_value"
      by (simp add: pivot_table_modelled)
    with that(2) pivot_groups_outcome [of df v f ao i "column_key cols v" fill_value] v(3)
    show ?thesis by auto
  next
    case False
    with that hi v g show ?thesis
      by (cases cols) (auto simp add: pivot_table_def key_labels_def split: if_splits)
  qed
  show ?thesis
    using i(1) hi v c(1) g fail by (simp add: pivot_inputs_def)
qed

theorem ui_pivot_inputs_witness:
  "fst (pivot_inputs stocks_example
     \<lparr>dataset_choice = ''Stocks'', index_pick = 0, columns_pick = 2, values_pick = 0,
      aggfunc_pick = AggMean, button_pressed = True, chart_type = ''Bar Chart''\<rparr>)
     = Some ''sector'' \<and>
   snd (pivot_inputs stocks_example
     \<lparr>dataset_choice = ''Stocks'', index_pick = 0, columns_pick = 2, values_pick = 0,
      aggfunc_pick = AggMean, button_pressed = True, chart_type = ''Bar Chart''\<rparr>)
     = (Some ''stock_name'', Some ''price'') \<and>
   (\<forall>c. pivot_table (\<lambda>f vs. Inl TypeError) (\<lambda>d i c v f. Inl ValueError)
      stocks_example (Some ''sector'') (Some ''stock_name'') (Some ''price'') AggMean (Num 0)
      \<noteq> Inl (KeyError c))"
proof -
  let ?ch = "\<lparr>dataset_choice = ''Stocks'', index_pick = 0, columns_pick = 2, values_pick = 0,
      aggfunc_pick = AggMean, button_pressed = True, chart_type = ''Bar Chart''\<rparr>"
  let ?pt = "pivot_table (\<lambda>f vs. Inl TypeError) (\<lambda>d i c v f. Inl ValueError)
      stocks_example (Some ''sector'') (Some ''stock_name'') (Some ''price'') AggMean (Num 0)"
  have ne: "\<not> empty_df stocks_example" "numeric_columns stocks_example \<noteq> []"
    by (simp_all add: empty_df_def stocks_example_def numeric_columns_def all_columns_def
        dtype_of_def)
  have inp: "pivot_inputs stocks_example ?ch
      = (Some ''sector'', Some ''stock_name'', Some ''price'')"
    by (simp add: pivot_inputs_def selectbox_def stocks_example_def numeric_columns_def
        all_columns_def dtype_of_def)
  from ui_pivot_inputs [OF ne, of ?ch "\<lambda>f vs. Inl TypeError" "\<lambda>d i c v f. Inl ValueError"
      AggMean "Num 0"] inp
  have "\<forall>c. ?pt = Inl (KeyError c) \<longrightarrow> (Inl ValueError :: error + pivot_df) = Inl (KeyError c)"
    by simp
  then have "\<forall>c. ?pt \<noteq> Inl (KeyError c)" by auto
  with inp show ?thesis by simp
qed

text \<open>
  Claim C10 as stated fails: the news table below is not empty and has no numeric column,
  so the value select box has no option and gives \<^verbatim>\<open>None\<close>; the pivot is then asked for
  without a value label and aggregates the text column \<^verbatim>\<open>sector\<close>. Where the library's
  \<^verbatim>\<open>mean\<close> raises TypeError on a text column, the pivot built in the workspace ends in
  that TypeError.
\<close>

theorem no_numeric_column_counterexample:
  "\<not> empty_df news_example \<and>
   pivot_inputs news_example
     \<lparr>dataset_choice = ''News'', index_pick = 0, columns_pick = 0, values_pick = 0,
      aggfunc_pick = AggMean, button_pressed = True, chart_type = ''Bar Chart''\<rparr>
   = (Some ''category'', None, None) \<and>
   generate_pivot (\<lambda>f vs. Inl TypeError) (\<lambda>d i c v f. Inl ValueError)
     (\<lambda>kind pv x y. Inl ValueError :: error + unit) news_example
     \<lparr>dataset_choice = ''News'', index_pick = 0, columns_pick = 0, values_pick = 0,
      aggfunc_pick = AggMean, button_pressed = True, chart_type = ''Bar Chart''\<rparr>
   = ([], Some TypeError)"
  by (simp add: empty_df_def news_example_def pivot_inputs_def selectbox_def
      numeric_columns_def all_columns_def dtype_of_def generate_pivot_def pivot_table_def
      key_labels_def has_col_def pivot_groups_def sorted_unique_def mixes_kinds_def
      group_keys_def live_rows_def partition_of_def cell_def column_key_def aggregate_def)

text \<open>
  Claim C6. No exception leaves tab 3; what was on the page before stays, in place, and
  tab 3 only adds to it. When the button is pressed on a table that is not empty and the
  body of the \<^verbatim>\<open>try\<close> ends in an exception, the page ends with what the body drew before
  it and the error box of that exception.
\<close>

theorem pivot_failure_shown:
  "snd (tab3 ao po px df_news df_stocks ch page) = None \<and>
   (\<exists>els. fst (tab3 ao po px df_news df_stocks ch page) = page @ els) \<and>
   (button_pressed ch \<longrightarrow>
    \<not> empty_df (if dataset_choice ch = ''News'' then df_news else df_stocks) \<longrightarrow>
    generate_pivot ao po px (if dataset_choice ch = ''News'' then df_news else df_stocks) ch
      = (drawn, Some e) \<longrightarrow>
    (\<exists>widgets. fst (tab3 ao po px df_news df_stocks ch page)
        = page @ widgets @ drawn @ [ErrorBox e]))"
  by (auto simp add: tab3_def Let_def split: prod.splits option.splits)

theorem pivot_failure_shown_witness:
  "tab3 (\<lambda>f vs. Inl TypeError) (\<lambda>d i c v f. Inl ValueError)
     (\<lambda>kind pv x y. Inl TypeError :: error + unit) news_example stocks_example
     \<lparr>dataset_choice = ''News'', index_pick = 0, columns_pick = 0, values_pick = 0,
      aggfunc_pick = AggCount, button_pressed = True, chart_type = ''Bar Chart''\<rparr>
     [Header ''Stock Data Dashboard'']
   = ([Header ''Stock Data Dashboard'', Header ''Pivot Table Workspace'',
       Selectbox ''Select Dataset'', Selectbox ''Index (Rows)'',
       Selectbox ''Columns (Optional)'', Selectbox ''Values (Agg Target)'',
       Selectbox ''Aggregation Function'', Button ''Generate Pivot Table'',
       ErrorBox ValueError], None)"
  using pivot_failure_shown [of "\<lambda>f vs. Inl TypeError" "\<lambda>d i c v f. Inl ValueError"
      "\<lambda>kind pv x y. Inl TypeError :: error + unit" news_example stocks_example
      "\<lparr>dataset_choice = ''News'', index_pick = 0, columns_pick = 0, values_pick = 0,
        aggfunc_pick = AggCount, button_pressed = True, chart_type = ''Bar Chart''\<rparr>"
      "[Header ''Stock Data Dashboard'']" "[]" ValueError]
  by (simp add: tab3_def generate_pivot_def pivot_inputs_def selectbox_def news_example_def
      empty_df_def numeric_columns_def all_columns_def dtype_of_def pivot_table_def Let_def
      key_labels_def has_col_def pivot_groups_def sorted_unique_def mixes_kinds_def
      group_keys_def live_rows_def partition_of_def cell_def column_key_def aggregate_def
      lay_out_def)

end
